theory Spec2Isabelle
  imports Complex_Main "HOL-Library.Sublist"
begin

section \<open>Data model (types.ts)\<close>

text \<open>
  The enum \<^verbatim>\<open>NodeType\<close> and the interfaces of \<^verbatim>\<open>types.ts\<close>. Record fields carry a
  prefix (\<open>n_\<close> for \<^verbatim>\<open>AgentNode\<close>, \<open>e_\<close> for \<^verbatim>\<open>AgentEdge\<close>, \<open>l_\<close> for
  \<^verbatim>\<open>ProcessLogEntry\<close>, \<open>r_\<close> for the result object of \<^verbatim>\<open>processAgentTask\<close>), because
  several interfaces share the field names \<^verbatim>\<open>id\<close> and \<^verbatim>\<open>groundingMetadata\<close>, and \<open>id\<close> is a
  constant of HOL. An optional field (\<^verbatim>\<open>output?: string\<close>) is an \<open>option\<close>; \<open>None\<close> is
  \<^verbatim>\<open>undefined\<close>. A JavaScript string is a list of characters; the characters of HOL are the
  code units below 256.
\<close>

datatype NodeType = START | AGENT | END | CONDITIONAL_AGENT

record GroundingChunkWeb =
  uri :: string
  title :: string

record GroundingChunk =
  web :: "GroundingChunkWeb option"

record AgentNode =
  n_id :: string
  n_type :: NodeType
  n_description :: string
  n_x :: real
  n_y :: real
  n_output :: "string option"
  n_lastProcessedInput :: "string option"
  n_enableInternetSearch :: "bool option"
  n_groundingMetadata :: "GroundingChunk list option"

record AgentEdge =
  e_id :: string
  e_sourceId :: string
  e_targetId :: string
  e_conditionKeyword :: "string option"

datatype Status = info | success | error | processing

text \<open>The timestamp of a log entry is a \<^verbatim>\<open>Date\<close>: milliseconds since the epoch.\<close>

record ProcessLogEntry =
  l_timestamp :: int
  l_message :: string
  l_nodeId :: "string option"
  l_status :: Status
  l_groundingMetadata :: "GroundingChunk list option"

text \<open>The value a successful \<^verbatim>\<open>processAgentTask\<close> resolves to.\<close>

record AgentResult =
  r_text :: string
  r_groundingMetadata :: "GroundingChunk list option"

section \<open>The state of the App component\<close>

text \<open>
  The React state variables that the handlers below read or write (the two that drive
  dragging are left out: no handler below touches them), and two
  components of the world outside the component: \<open>clockReads\<close> counts the evaluations of
  \<^verbatim>\<open>new Date()\<close>, and \<open>invocations\<close> lists the calls of \<^verbatim>\<open>processAgentTask\<close> made so far
  (description, input, search flag), oldest first. \<^verbatim>\<open>nodeErrors\<close> is a
  \<^verbatim>\<open>Record<string, boolean>\<close>, a map.
\<close>

record AppState =
  nodes :: "AgentNode list"
  edges :: "AgentEdge list"
  selectedNodeId :: "string option"
  connectingFromNodeId :: "string option"
  initialQuestion :: string
  processingLog :: "ProcessLogEntry list"
  finalOutput :: "string option"
  isProcessing :: bool
  processingError :: "string option"
  currentProcessingNodeId :: "string option"
  nodeErrors :: "string \<rightharpoonup> bool"
  clockReads :: nat
  invocations :: "(string \<times> string \<times> bool option) list"

text \<open>
  The wall clock: the value of the \<open>k\<close>-th evaluation of \<^verbatim>\<open>new Date()\<close>. The invocation
  service: what the \<open>k\<close>-th call of \<^verbatim>\<open>processAgentTask\<close> answers to a description, an input
  and a search flag; \<open>Inl\<close> is a rejection and carries \<^verbatim>\<open>err.message\<close>.
\<close>

type_synonym Clock = "nat \<Rightarrow> int"

type_synonym Service = "nat \<Rightarrow> string \<Rightarrow> string \<Rightarrow> bool option \<Rightarrow> string + AgentResult"

section \<open>String primitives of JavaScript\<close>

text \<open>
  \<^verbatim>\<open>String.prototype.trim\<close> removes white space and line terminators at both ends; below
  code unit 256 these are 9 to 13, 32 and 160.
\<close>

definition isWhiteSpace :: "char \<Rightarrow> bool" where
  "isWhiteSpace c =
     (let k = (of_char c :: nat) in (9 \<le> k \<and> k \<le> 13) \<or> k = 32 \<or> k = 160)"

definition trim :: "string \<Rightarrow> string" where
  "trim s = rev (dropWhile isWhiteSpace (rev (dropWhile isWhiteSpace s)))"

text \<open>
  \<^verbatim>\<open>String.prototype.toLowerCase\<close>, below code unit 256: the letters A to Z and the
  letters 192 to 222 other than the multiplication sign 215 move up by 32.
\<close>

definition toLowerCaseChar :: "char \<Rightarrow> char" where
  "toLowerCaseChar c =
     (let k = (of_char c :: nat)
      in if (65 \<le> k \<and> k \<le> 90) \<or> (192 \<le> k \<and> k \<le> 222 \<and> k \<noteq> 215)
         then char_of (k + 32) else c)"

definition toLowerCase :: "string \<Rightarrow> string" where
  "toLowerCase s = map toLowerCaseChar s"

text \<open>\<^verbatim>\<open>s.includes(k)\<close>: \<open>k\<close> starts at some position of \<open>s\<close>.\<close>

fun includes_str :: "string \<Rightarrow> string \<Rightarrow> bool" where
  "includes_str [] k = (k = [])"
| "includes_str (c # s) k = (prefix k (c # s) \<or> includes_str s k)"

text \<open>The string value of a member of the enum \<^verbatim>\<open>NodeType\<close>.\<close>

fun nodeTypeString :: "NodeType \<Rightarrow> string" where
  "nodeTypeString START = ''START''"
| "nodeTypeString AGENT = ''AGENT''"
| "nodeTypeString END = ''END''"
| "nodeTypeString CONDITIONAL_AGENT = ''CONDITIONAL_AGENT''"

section \<open>Initial state and the objects the editor builds\<close>

text \<open>The initial values of the \<^verbatim>\<open>useState\<close> calls (lines 24 to 41), in a world where
  nothing has happened yet.\<close>

definition mountState :: AppState where
  "mountState =
     \<lparr>nodes = [], edges = [], selectedNodeId = None, connectingFromNodeId = None,
      initialQuestion = [], processingLog = [], finalOutput = None, isProcessing = False,
      processingError = None, currentProcessingNodeId = None, nodeErrors = Map.empty,
      clockReads = 0, invocations = []\<rparr>"

text \<open>
  The node object that \<^verbatim>\<open>handleAddNode\<close> (lines 156 to 161) and \<^verbatim>\<open>initializeFlow\<close>
  (lines 52 and 53) build: empty output and input, no sources, and a search flag only on
  the two agent types.
\<close>

definition newNode :: "string \<Rightarrow> NodeType \<Rightarrow> string \<Rightarrow> real \<Rightarrow> real \<Rightarrow> AgentNode" where
  "newNode i t d x y =
     \<lparr>n_id = i, n_type = t, n_description = d, n_x = x, n_y = y, n_output = Some [],
      n_lastProcessedInput = Some [],
      n_enableInternetSearch = (if t = AGENT \<or> t = CONDITIONAL_AGENT then Some False else None),
      n_groundingMetadata = Some []\<rparr>"

text \<open>The edge object that \<^verbatim>\<open>handleNodeClick\<close> builds (line 185), and the edge after
  \<^verbatim>\<open>handleUpdateEdgeKeyword\<close> (line 226) has stored a trimmed keyword in it.\<close>

definition newEdge :: "string \<Rightarrow> string \<Rightarrow> string \<Rightarrow> AgentEdge" where
  "newEdge i src tgt = \<lparr>e_id = i, e_sourceId = src, e_targetId = tgt, e_conditionKeyword = Some []\<rparr>"

definition keywordEdge :: "string \<Rightarrow> string \<Rightarrow> string \<Rightarrow> string \<Rightarrow> AgentEdge" where
  "keywordEdge i src tgt keyword = (newEdge i src tgt)\<lparr>e_conditionKeyword := Some (trim keyword)\<rparr>"

section \<open>addLog and the state updates of a run\<close>

text \<open>
  \<^verbatim>\<open>addLog\<close> appends one entry, stamped with the clock, to \<^verbatim>\<open>processingLog\<close>.
\<close>

definition addLog ::
  "Clock \<Rightarrow> string \<Rightarrow> Status \<Rightarrow> string option \<Rightarrow> GroundingChunk list option
     \<Rightarrow> AppState \<Rightarrow> AppState" where
  "addLog clock message status nodeId groundingMetadata s =
     s\<lparr>processingLog := processingLog s @
          [\<lparr>l_timestamp = clock (clockReads s), l_message = message, l_nodeId = nodeId,
            l_status = status, l_groundingMetadata = groundingMetadata\<rparr>],
       clockReads := Suc (clockReads s)\<rparr>"

text \<open>\<^verbatim>\<open>setNodeErrors(prev => ({...prev, [id]: true}))\<close>\<close>

definition markNodeError :: "string \<Rightarrow> AppState \<Rightarrow> AppState" where
  "markNodeError i s = s\<lparr>nodeErrors := (nodeErrors s)(i \<mapsto> True)\<rparr>"

text \<open>\<^verbatim>\<open>setNodes(prev => prev.map(n => n.id === id ? f(n) : n))\<close>\<close>

definition updateNode :: "string \<Rightarrow> (AgentNode \<Rightarrow> AgentNode) \<Rightarrow> AppState \<Rightarrow> AppState" where
  "updateNode i f s = s\<lparr>nodes := map (\<lambda>n. if n_id n = i then f n else n) (nodes s)\<rparr>"

section \<open>The traversal loop of handleProcessFlow\<close>

text \<open>The variables of the loop.\<close>

record LoopVars =
  currentNode :: AgentNode
  currentInput :: string
  visitedNodes :: "string set"

text \<open>
  The branch selection of a CONDITIONAL_AGENT node (lines 329 and 330): the outgoing edges
  in the order of the edge list, then the first one whose keyword is truthy (defined and
  not empty) and whose lower-cased keyword is included in the lower-cased output.
\<close>

definition keywordMatches :: "string \<Rightarrow> AgentEdge \<Rightarrow> bool" where
  "keywordMatches txt edge =
     (case e_conditionKeyword edge of
        None \<Rightarrow> False
      | Some k \<Rightarrow> k \<noteq> [] \<and> includes_str (toLowerCase txt) (toLowerCase k))"

definition conditionalEdge :: "AgentEdge list \<Rightarrow> string \<Rightarrow> string \<Rightarrow> AgentEdge option" where
  "conditionalEdge es i txt =
     List.find (keywordMatches txt) (filter (\<lambda>e. e_sourceId e = i) es)"

text \<open>\<^verbatim>\<open>edges.find(e => e.sourceId === currentNode.id)\<close> (lines 336 and 343).\<close>

definition firstEdgeFrom :: "AgentEdge list \<Rightarrow> string \<Rightarrow> AgentEdge option" where
  "firstEdgeFrom es i = List.find (\<lambda>e. e_sourceId e = i) es"

text \<open>
  Lines 346 to 357, "navigate to the next node". The result is the state and, when the
  loop goes on, the variables of the next iteration; \<open>None\<close> is \<^verbatim>\<open>break\<close>.
\<close>

definition navigate ::
  "Clock \<Rightarrow> AgentNode list \<Rightarrow> AgentNode \<Rightarrow> string \<Rightarrow> string set \<Rightarrow> AgentEdge option
     \<Rightarrow> AppState \<Rightarrow> LoopVars option \<times> AppState" where
  "navigate clock ns cn input visited nextEdgeToFollow s =
     (case nextEdgeToFollow of
        None \<Rightarrow>
          (None, markNodeError (n_id cn)
             (addLog clock (''Node '' @ [CHR 0x27] @ n_description cn @ [CHR 0x27]
                              @ '' has no outgoing connection. Flow halted.'')
                error (Some (n_id cn)) None s))
      | Some edge \<Rightarrow>
          (case List.find (\<lambda>n. n_id n = e_targetId edge) ns of
             None \<Rightarrow>
               (None, markNodeError (n_id cn)
                  (addLog clock ''Target node not found. Flow corrupted.''
                     error (Some (n_id cn)) None s))
           | Some nextNode \<Rightarrow>
               (Some \<lparr>currentNode = nextNode, currentInput = input, visitedNodes = visited\<rparr>,
                s)))"

text \<open>
  One iteration of the loop (lines 301 to 357). \<open>ns\<close> and \<open>es\<close> are the \<^verbatim>\<open>nodes\<close> and
  \<^verbatim>\<open>edges\<close> that the closure of \<^verbatim>\<open>handleProcessFlow\<close> captured; the state updates go to
  the current state.
\<close>

definition loopBody ::
  "Clock \<Rightarrow> Service \<Rightarrow> AgentNode list \<Rightarrow> AgentEdge list \<Rightarrow> LoopVars \<Rightarrow> AppState
     \<Rightarrow> LoopVars option \<times> AppState" where
  "loopBody clock service ns es lv s =
     (let cn = currentNode lv; i = n_id cn; input = currentInput lv in
      if i \<in> visitedNodes lv then
        (None, markNodeError i
           (addLog clock (''Cycle detected at node '' @ i @ ''. Halting.'') error (Some i) None s))
      else
        let visited = insert i (visitedNodes lv);
            s1 = s\<lparr>currentProcessingNodeId := Some i\<rparr>
        in
        if n_type cn = END then
          (None,
           addLog clock ''Reached END node. Final output set.'' success (Some i) None
             (updateNode i (\<lambda>n. n\<lparr>n_lastProcessedInput := Some input, n_output := Some input\<rparr>)
                (s1\<lparr>finalOutput := Some input\<rparr>)))
        else if n_type cn = AGENT \<or> n_type cn = CONDITIONAL_AGENT then
          let s2 = updateNode i (\<lambda>n. n\<lparr>n_lastProcessedInput := Some input\<rparr>) s1;
              answer = service (length (invocations s2)) (n_description cn) input
                         (n_enableInternetSearch cn);
              s3 = s2\<lparr>invocations := invocations s2 @
                        [(n_description cn, input, n_enableInternetSearch cn)]\<rparr>
          in
          (case answer of
             Inl errMessage \<Rightarrow>
               (None, markNodeError i
                  (addLog clock (''Error processing agent '' @ [CHR 0x27] @ n_description cn
                                   @ [CHR 0x27] @ '': '' @ errMessage)
                     error (Some i) None s3))
           | Inr agentResult \<Rightarrow>
               let output = r_text agentResult;
                   s4 = updateNode i
                          (\<lambda>n. n\<lparr>n_output := Some output,
                                 n_groundingMetadata :=
                                   Some (case r_groundingMetadata agentResult of
                                           None \<Rightarrow> [] | Some g \<Rightarrow> g)\<rparr>) s3;
                   s5 = addLog clock
                          (nodeTypeString (n_type cn) @ '': '' @ [CHR 0x22] @ take 50 output
                             @ ''...'' @ [CHR 0x22])
                          success (Some i) (r_groundingMetadata agentResult) s4
               in
               if n_type cn = CONDITIONAL_AGENT then
                 (case conditionalEdge es i output of
                    None \<Rightarrow>
                      (None, markNodeError i
                         (addLog clock
                            ''Conditional output did not match any path keywords. Halting.''
                            error (Some i) None s5))
                  | Some edge \<Rightarrow> navigate clock ns cn output visited (Some edge) s5)
               else navigate clock ns cn output visited (firstEdgeFrom es i) s5)
        else navigate clock ns cn input visited (firstEdgeFrom es i) s1)"

text \<open>
  The \<^verbatim>\<open>for\<close> loop: at most \<open>bound\<close> iterations. When the bound runs out the loop is left
  with nothing logged.
\<close>

fun processLoop ::
  "Clock \<Rightarrow> Service \<Rightarrow> AgentNode list \<Rightarrow> AgentEdge list \<Rightarrow> nat \<Rightarrow> LoopVars \<Rightarrow> AppState
     \<Rightarrow> AppState" where
  "processLoop clock service ns es 0 lv s = s"
| "processLoop clock service ns es (Suc bound) lv s =
     (case loopBody clock service ns es lv s of
        (None, s') \<Rightarrow> s'
      | (Some lv', s') \<Rightarrow> processLoop clock service ns es bound lv' s')"

section \<open>handleProcessFlow\<close>

text \<open>Lines 285 to 287: the reset at the start of a run.\<close>

definition resetRun :: "AppState \<Rightarrow> AppState" where
  "resetRun s =
     s\<lparr>isProcessing := True, processingLog := [], finalOutput := None,
       processingError := None, currentProcessingNodeId := None, nodeErrors := Map.empty,
       nodes := map (\<lambda>n. n\<lparr>n_output := None, n_lastProcessedInput := None,
                            n_groundingMetadata := Some []\<rparr>) (nodes s)\<rparr>"

definition handleProcessFlow :: "Clock \<Rightarrow> Service \<Rightarrow> AppState \<Rightarrow> AppState" where
  "handleProcessFlow clock service s =
     (if trim (initialQuestion s) = [] then
        addLog clock ''Initial question cannot be empty.'' error None None s
      else
        let s1 = addLog clock
                   (''Starting flow with question: '' @ [CHR 0x22] @ initialQuestion s
                      @ [CHR 0x22])
                   info None None (resetRun s)
        in
        case List.find (\<lambda>n. n_type n = START) (nodes s) of
          None \<Rightarrow> (addLog clock ''START node not found.'' error None None s1)
                    \<lparr>isProcessing := False\<rparr>
        | Some startNode \<Rightarrow>
            (processLoop clock service (nodes s) (edges s) (length (nodes s) + 10)
               \<lparr>currentNode = startNode, currentInput = initialQuestion s, visitedNodes = {}\<rparr>
               s1)
              \<lparr>isProcessing := False, currentProcessingNodeId := None\<rparr>)"

section \<open>The editor's edge creation\<close>

text \<open>\<^verbatim>\<open>type.replace(/_/g, ' ')\<close>\<close>

definition replaceUnderscores :: "string \<Rightarrow> string" where
  "replaceUnderscores s = map (\<lambda>c. if c = CHR ''_'' then CHR '' '' else c) s"

text \<open>
  \<^verbatim>\<open>handleNodeClick\<close> (lines 174 to 196): in connection mode a click on another node
  creates an edge, unless the source is a START or AGENT node that already has an outgoing
  edge. \<open>uuid\<close> is the value of \<^verbatim>\<open>crypto.randomUUID()\<close>.
\<close>

definition handleNodeClick :: "Clock \<Rightarrow> string \<Rightarrow> string \<Rightarrow> AppState \<Rightarrow> AppState" where
  "handleNodeClick clock uuid nodeId s =
     (case connectingFromNodeId s of
        None \<Rightarrow> s\<lparr>selectedNodeId := Some nodeId\<rparr>
      | Some src \<Rightarrow>
          if src = [] \<or> src = nodeId then s\<lparr>selectedNodeId := Some nodeId\<rparr>
          else
            (case (List.find (\<lambda>n. n_id n = src) (nodes s),
                   List.find (\<lambda>n. n_id n = nodeId) (nodes s)) of
               (Some sourceNode, Some targetNode) \<Rightarrow>
                 if n_type sourceNode \<noteq> END \<and> n_type targetNode \<noteq> START then
                   (if (n_type sourceNode = START \<or> n_type sourceNode = AGENT)
                        \<and> List.find (\<lambda>edge. e_sourceId edge = src) (edges s) \<noteq> None
                    then addLog clock
                           (replaceUnderscores (nodeTypeString (n_type sourceNode))
                              @ '' nodes can only have one outgoing connection. Delete existing one first.'')
                           error None None s
                    else addLog clock
                           (''Connected '' @ take 10 (nodeTypeString (n_type sourceNode))
                              @ ''... to '' @ take 10 (nodeTypeString (n_type targetNode))
                              @ ''...'')
                           info None None
                           (s\<lparr>edges := edges s @
                                [\<lparr>e_id = uuid, e_sourceId = src, e_targetId = nodeId,
                                  e_conditionKeyword = Some []\<rparr>]\<rparr>))
                 else addLog clock ''Invalid connection attempt.'' error None None s
             | _ \<Rightarrow> addLog clock ''Invalid connection attempt.'' error None None s)
            \<lparr>connectingFromNodeId := None\<rparr>)"

section \<open>Notions for stating the properties\<close>

text \<open>
  What an observer compares between two log entries when the time stamp is left aside.
\<close>

definition logContent ::
  "ProcessLogEntry \<Rightarrow> Status \<times> string \<times> string option \<times> GroundingChunk list option" where
  "logContent e = (l_status e, l_message e, l_nodeId e, l_groundingMetadata e)"





text \<open>
  The state \<open>s'\<close> is what an iteration at an END node leaves: the loop variables \<open>lv\<close> have
  an END node as the current node, the final output is the payload they carry, the last
  entry of the log is the success entry of that node, and every node with that id has the
  payload as its last input.
\<close>

definition endedAtEND :: "LoopVars \<Rightarrow> AppState \<Rightarrow> bool" where
  "endedAtEND lv s' \<longleftrightarrow>
     n_type (currentNode lv) = END \<and> finalOutput s' = Some (currentInput lv)
     \<and> processingLog s' \<noteq> []
     \<and> logContent (last (processingLog s')) =
         (success, ''Reached END node. Final output set.'', Some (n_id (currentNode lv)), None)
     \<and> (\<forall>n\<in>set (nodes s'). n_id n = n_id (currentNode lv) \<longrightarrow>
           n_lastProcessedInput n = Some (currentInput lv))"

text \<open>
  Whether the \<^verbatim>\<open>for\<close> loop, started with \<open>bound\<close> iterations to go, is left by a
  \<^verbatim>\<open>break\<close> (and not because the bound has run out). It follows \<open>processLoop\<close> equation by
  equation.
\<close>

fun leftByBreak ::
  "Clock \<Rightarrow> Service \<Rightarrow> AgentNode list \<Rightarrow> AgentEdge list \<Rightarrow> nat \<Rightarrow> LoopVars \<Rightarrow> AppState
     \<Rightarrow> bool" where
  "leftByBreak clock service ns es 0 lv s = False"
| "leftByBreak clock service ns es (Suc bound) lv s =
     (case loopBody clock service ns es lv s of
        (None, s') \<Rightarrow> True
      | (Some lv', s') \<Rightarrow> leftByBreak clock service ns es bound lv' s')"

text \<open>Every START node and every AGENT node has at most one outgoing edge.\<close>

definition singleOutgoing :: "AppState \<Rightarrow> bool" where
  "singleOutgoing s \<longleftrightarrow>
     (\<forall>n\<in>set (nodes s). n_type n = START \<or> n_type n = AGENT \<longrightarrow>
        length (filter (\<lambda>e. e_sourceId e = n_id n) (edges s)) \<le> 1)"

section \<open>Stub services and example flows\<close>

text \<open>A stub of the invocation service that answers every call with its input.\<close>

definition echoService :: Service where
  "echoService k description input search = Inr \<lparr>r_text = input, r_groundingMetadata = None\<rparr>"

text \<open>A stub of the invocation service that rejects every call with the message "quota".\<close>

definition rejectingService :: Service where
  "rejectingService k description input search = Inl ''quota''"


text \<open>The flow START, then an AGENT with the role "uppercase", then END, and the question "hello".\<close>

definition happyPathFlow :: AppState where
  "happyPathFlow = mountState
     \<lparr>nodes := [newNode ''s'' START ''Workflow Start'' 50 940,
                 newNode ''a'' AGENT ''uppercase'' 290 940,
                 newNode ''e'' END ''Workflow End'' 2750 940],
      edges := [newEdge ''e1'' ''s'' ''a'', newEdge ''e2'' ''a'' ''e''],
      initialQuestion := ''hello''\<rparr>"

text \<open>The flow START, A, B and back to A, with the question "go".\<close>

definition cycleFlow :: AppState where
  "cycleFlow = mountState
     \<lparr>nodes := [newNode ''s'' START ''Workflow Start'' 50 940,
                 newNode ''a'' AGENT ''A'' 290 940,
                 newNode ''b'' AGENT ''B'' 530 940],
      edges := [newEdge ''e1'' ''s'' ''a'', newEdge ''e2'' ''a'' ''b'',
                newEdge ''e3'' ''b'' ''a''],
      initialQuestion := ''go''\<rparr>"



text \<open>A flow with two START nodes, the first of them wired to the END node.\<close>

definition twoStartFlow :: AppState where
  "twoStartFlow = mountState
     \<lparr>nodes := [newNode ''s1'' START ''Workflow Start'' 50 940,
                 newNode ''s2'' START ''Second Start'' 50 1080,
                 newNode ''e'' END ''Workflow End'' 2750 940],
      edges := [newEdge ''x1'' ''s1'' ''e''],
      initialQuestion := ''hi''\<rparr>"


section \<open>Basic facts about the state updates\<close>

lemma addLog_fields:
  "nodes (addLog c m st n g s) = nodes s"
  "edges (addLog c m st n g s) = edges s"
  "initialQuestion (addLog c m st n g s) = initialQuestion s"
  "finalOutput (addLog c m st n g s) = finalOutput s"
  "isProcessing (addLog c m st n g s) = isProcessing s"
  "currentProcessingNodeId (addLog c m st n g s) = currentProcessingNodeId s"
  "nodeErrors (addLog c m st n g s) = nodeErrors s"
  "invocations (addLog c m st n g s) = invocations s"
  "clockReads (addLog c m st n g s) = Suc (clockReads s)"
  "processingLog (addLog c m st n g s) = processingLog s @
     [\<lparr>l_timestamp = c (clockReads s), l_message = m, l_nodeId = n, l_status = st,
       l_groundingMetadata = g\<rparr>]"
  by (simp_all add: addLog_def)

lemma markNodeError_fields:
  "nodes (markNodeError i s) = nodes s"
  "edges (markNodeError i s) = edges s"
  "initialQuestion (markNodeError i s) = initialQuestion s"
  "finalOutput (markNodeError i s) = finalOutput s"
  "isProcessing (markNodeError i s) = isProcessing s"
  "currentProcessingNodeId (markNodeError i s) = currentProcessingNodeId s"
  "nodeErrors (markNodeError i s) = (nodeErrors s)(i \<mapsto> True)"
  "invocations (markNodeError i s) = invocations s"
  "clockReads (markNodeError i s) = clockReads s"
  "processingLog (markNodeError i s) = processingLog s"
  by (simp_all add: markNodeError_def)

lemma updateNode_fields:
  "nodes (updateNode i f s) = map (\<lambda>n. if n_id n = i then f n else n) (nodes s)"
  "edges (updateNode i f s) = edges s"
  "initialQuestion (updateNode i f s) = initialQuestion s"
  "finalOutput (updateNode i f s) = finalOutput s"
  "isProcessing (updateNode i f s) = isProcessing s"
  "currentProcessingNodeId (updateNode i f s) = currentProcessingNodeId s"
  "nodeErrors (updateNode i f s) = nodeErrors s"
  "invocations (updateNode i f s) = invocations s"
  "clockReads (updateNode i f s) = clockReads s"
  "processingLog (updateNode i f s) = processingLog s"
  by (simp_all add: updateNode_def)

text \<open>The definitions a run on a concrete flow unfolds.\<close>

lemmas run_defs = handleProcessFlow_def resetRun_def loopBody_def navigate_def firstEdgeFrom_def
  conditionalEdge_def keywordMatches_def
  addLog_def markNodeError_def updateNode_def trim_def isWhiteSpace_def
  mountState_def newNode_def newEdge_def keywordEdge_def logContent_def Let_def eval_nat_numeral

section \<open>Reaching END\<close>

lemma loopBody_END:
  assumes "n_type (currentNode lv) = END" and "n_id (currentNode lv) \<notin> visitedNodes lv"
  shows "loopBody clock service ns es lv s =
     (None,
      addLog clock ''Reached END node. Final output set.'' success
        (Some (n_id (currentNode lv))) None
        (updateNode (n_id (currentNode lv))
           (\<lambda>n. n\<lparr>n_lastProcessedInput := Some (currentInput lv),
                  n_output := Some (currentInput lv)\<rparr>)
           (s\<lparr>currentProcessingNodeId := Some (n_id (currentNode lv)),
              finalOutput := Some (currentInput lv)\<rparr>)))"
  using assms by (simp add: loopBody_def Let_def)

lemma happyPath_run:
  "finalOutput (handleProcessFlow clock echoService happyPathFlow) = Some ''hello''"
  "map logContent (processingLog (handleProcessFlow clock echoService happyPathFlow)) =
     [(info, ''Starting flow with question: '' @ [CHR 0x22] @ ''hello'' @ [CHR 0x22], None, None),
      (success, ''AGENT: '' @ [CHR 0x22] @ ''hello...'' @ [CHR 0x22], Some ''a'', None),
      (success, ''Reached END node. Final output set.'', Some ''e'', None)]"
  "invocations (handleProcessFlow clock echoService happyPathFlow) =
     [(''uppercase'', ''hello'', Some False)]"
  "isProcessing (handleProcessFlow clock echoService happyPathFlow) = False"
  by (simp_all add: happyPathFlow_def echoService_def run_defs)

text \<open>
  C8. When the current node is an END node (reached for the first time), the loop stops in
  that iteration: the final output is the payload carried into END, one success entry
  "Reached END node. Final output set." is appended for that node, no node is marked as
  failed and the invocation service is not called. On the flow START, AGENT, END with the
  echoing stub and the question "hello", the run ends with the final output "hello"; its log
  is the start entry, one node-output entry (of the AGENT node) and the END entry, and the
  service was called once.
\<close>

theorem C8_end_completes:
  "(n_type (currentNode lv) = END \<and> n_id (currentNode lv) \<notin> visitedNodes lv \<longrightarrow>
      finalOutput (processLoop clock service ns es (Suc bound) lv s) = Some (currentInput lv) \<and>
      processingLog (processLoop clock service ns es (Suc bound) lv s) =
        processingLog s @
          [\<lparr>l_timestamp = clock (clockReads s),
            l_message = ''Reached END node. Final output set.'',
            l_nodeId = Some (n_id (currentNode lv)), l_status = success,
            l_groundingMetadata = None\<rparr>] \<and>
      nodeErrors (processLoop clock service ns es (Suc bound) lv s) = nodeErrors s \<and>
      invocations (processLoop clock service ns es (Suc bound) lv s) = invocations s)
   \<and> finalOutput (handleProcessFlow clock echoService happyPathFlow) = Some ''hello''
   \<and> map logContent (processingLog (handleProcessFlow clock echoService happyPathFlow)) =
       [(info, ''Starting flow with question: '' @ [CHR 0x22] @ ''hello'' @ [CHR 0x22],
           None, None),
        (success, ''AGENT: '' @ [CHR 0x22] @ ''hello...'' @ [CHR 0x22], Some ''a'', None),
        (success, ''Reached END node. Final output set.'', Some ''e'', None)]
   \<and> invocations (handleProcessFlow clock echoService happyPathFlow) =
       [(''uppercase'', ''hello'', Some False)]
   \<and> isProcessing (handleProcessFlow clock echoService happyPathFlow) = False"
proof -
  have "n_type (currentNode lv) = END \<Longrightarrow> n_id (currentNode lv) \<notin> visitedNodes lv \<Longrightarrow>
      processLoop clock service ns es (Suc bound) lv s = snd (loopBody clock service ns es lv s)"
    by (simp add: loopBody_END)
  then show ?thesis
    by (simp add: loopBody_END addLog_fields updateNode_fields happyPath_run)
qed

theorem C8_end_completes_witness:
  "finalOutput
     (processLoop (\<lambda>k. 0) echoService [] [] (Suc 0)
        \<lparr>currentNode = newNode ''e'' END ''Workflow End'' 2750 940, currentInput = ''hello'',
         visitedNodes = {''s'', ''a''}\<rparr> mountState) = Some ''hello''"
  using C8_end_completes [where lv = "\<lparr>currentNode = newNode ''e'' END ''Workflow End'' 2750 940,
      currentInput = ''hello'', visitedNodes = {''s'', ''a''}\<rparr>" and clock = "\<lambda>k. 0"
      and service = echoService and ns = "[]" and es = "[]" and bound = 0 and s = mountState]
  by (simp add: newNode_def)

section \<open>A rejected invocation\<close>

lemma loopBody_reject:
  assumes "n_type (currentNode lv) = AGENT \<or> n_type (currentNode lv) = CONDITIONAL_AGENT"
    and "n_id (currentNode lv) \<notin> visitedNodes lv"
    and "service (length (invocations s)) (n_description (currentNode lv)) (currentInput lv)
           (n_enableInternetSearch (currentNode lv)) = Inl errMessage"
  shows "loopBody clock service ns es lv s =
     (None,
      markNodeError (n_id (currentNode lv))
        (addLog clock
           (''Error processing agent '' @ [CHR 0x27] @ n_description (currentNode lv)
              @ [CHR 0x27] @ '': '' @ errMessage)
           error (Some (n_id (currentNode lv))) None
           ((updateNode (n_id (currentNode lv))
               (\<lambda>n. n\<lparr>n_lastProcessedInput := Some (currentInput lv)\<rparr>)
               (s\<lparr>currentProcessingNodeId := Some (n_id (currentNode lv))\<rparr>))
            \<lparr>invocations := invocations s @
               [(n_description (currentNode lv), currentInput lv,
                 n_enableInternetSearch (currentNode lv))]\<rparr>)))"
  using assms by (auto simp add: loopBody_def Let_def updateNode_fields)

text \<open>
  C9. When the current node is an AGENT or CONDITIONAL_AGENT node (reached for the first
  time) and the invocation service rejects the call with a message, the loop stops in that
  iteration: exactly one entry is appended to the log, an error entry for that node whose
  message ends with the message of the rejection; the node is marked as failed; the service
  has been called exactly once more (no second attempt); the final output is untouched and
  the node stays the one last processed.
\<close>

theorem C9_invocation_failure:
  assumes "n_type (currentNode lv) = AGENT \<or> n_type (currentNode lv) = CONDITIONAL_AGENT"
    and "n_id (currentNode lv) \<notin> visitedNodes lv"
    and "service (length (invocations s)) (n_description (currentNode lv)) (currentInput lv)
           (n_enableInternetSearch (currentNode lv)) = Inl errMessage"
  shows "processingLog (processLoop clock service ns es (Suc bound) lv s) =
           processingLog s @
             [\<lparr>l_timestamp = clock (clockReads s),
               l_message = ''Error processing agent '' @ [CHR 0x27]
                 @ n_description (currentNode lv) @ [CHR 0x27] @ '': '' @ errMessage,
               l_nodeId = Some (n_id (currentNode lv)), l_status = error,
               l_groundingMetadata = None\<rparr>]
       \<and> nodeErrors (processLoop clock service ns es (Suc bound) lv s) =
           (nodeErrors s)(n_id (currentNode lv) \<mapsto> True)
       \<and> invocations (processLoop clock service ns es (Suc bound) lv s) =
           invocations s @ [(n_description (currentNode lv), currentInput lv,
                             n_enableInternetSearch (currentNode lv))]
       \<and> finalOutput (processLoop clock service ns es (Suc bound) lv s) = finalOutput s
       \<and> currentProcessingNodeId (processLoop clock service ns es (Suc bound) lv s) =
           Some (n_id (currentNode lv))"
proof -
  note step = loopBody_reject [of lv service s errMessage clock ns es, OF assms]
  show ?thesis
    by (simp add: step addLog_fields markNodeError_fields updateNode_fields)
qed

theorem C9_invocation_failure_witness:
  "map logContent
     (processingLog
        (processLoop (\<lambda>k. 0) rejectingService [] [] (Suc 0)
           \<lparr>currentNode = newNode ''a'' AGENT ''uppercase'' 290 940, currentInput = ''hello'',
            visitedNodes = {''s''}\<rparr> mountState)) =
     [(error, ''Error processing agent '' @ [CHR 0x27] @ ''uppercase'' @ [CHR 0x27]
         @ '': quota'', Some ''a'', None)]
   \<and> invocations
       (processLoop (\<lambda>k. 0) rejectingService [] [] (Suc 0)
          \<lparr>currentNode = newNode ''a'' AGENT ''uppercase'' 290 940, currentInput = ''hello'',
           visitedNodes = {''s''}\<rparr> mountState) =
       [(''uppercase'', ''hello'', Some False)]"
  using C9_invocation_failure [where lv = "\<lparr>currentNode = newNode ''a'' AGENT ''uppercase'' 290 940,
      currentInput = ''hello'', visitedNodes = {''s''}\<rparr>" and service = rejectingService
      and s = mountState and errMessage = "''quota''" and clock = "\<lambda>k. 0" and ns = "[]"
      and es = "[]" and bound = 0]
  by (simp add: newNode_def rejectingService_def mountState_def logContent_def)

section \<open>Cycle detection\<close>

lemma loopBody_cycle:
  assumes "n_id (currentNode lv) \<in> visitedNodes lv"
  shows "loopBody clock service ns es lv s =
     (None,
      markNodeError (n_id (currentNode lv))
        (addLog clock (''Cycle detected at node '' @ n_id (currentNode lv) @ ''. Halting.'')
           error (Some (n_id (currentNode lv))) None s))"
  using assms by (simp add: loopBody_def Let_def)

lemma navigate_log:
  "\<exists>new. processingLog (snd (navigate clock ns cn input visited e s)) = processingLog s @ new
     \<and> (\<forall>x\<in>set new. \<not> prefix ''Cycle detected'' (l_message x))"
  by (simp add: navigate_def addLog_fields markNodeError_fields split: option.splits)

lemma navigate_visited:
  "navigate clock ns cn input visited e s = (Some lv', s') \<Longrightarrow> visitedNodes lv' = visited"
  by (auto simp add: navigate_def split: option.splits)

lemma loopBody_visited:
  assumes "loopBody clock service ns es lv s = (Some lv', s')"
  shows "n_id (currentNode lv) \<notin> visitedNodes lv
     \<and> visitedNodes lv' = insert (n_id (currentNode lv)) (visitedNodes lv)"
  using assms
  by (auto simp add: loopBody_def Let_def split: if_splits sum.splits option.splits
      dest: navigate_visited)

lemma loopBody_no_cycle_entry:
  assumes "n_id (currentNode lv) \<notin> visitedNodes lv"
  shows "\<exists>new. processingLog (snd (loopBody clock service ns es lv s)) = processingLog s @ new
     \<and> (\<forall>x\<in>set new. \<not> prefix ''Cycle detected'' (l_message x))"
proof -
  have nav: "\<exists>new. processingLog (snd (navigate clock ns cn input visited e s0)) =
        processingLog s @ new \<and> (\<forall>x\<in>set new. \<not> prefix ''Cycle detected'' (l_message x))"
    if "processingLog s0 = processingLog s @ pre"
      and "\<forall>x\<in>set pre. \<not> prefix ''Cycle detected'' (l_message x)"
    for cn input visited e s0 pre
    using navigate_log [of clock ns cn input visited e s0] that by auto
  show ?thesis
  proof (cases "n_type (currentNode lv)")
    case START
    then show ?thesis using assms by (simp add: loopBody_def Let_def nav)
  next
    case AGENT
    then show ?thesis using assms
      by (auto simp add: loopBody_def Let_def addLog_fields markNodeError_fields
          updateNode_fields split: sum.splits intro!: nav)
  next
    case END
    then show ?thesis using assms
      by (simp add: loopBody_def Let_def addLog_fields markNodeError_fields updateNode_fields)
  next
    case CONDITIONAL_AGENT
    then show ?thesis using assms
      by (auto simp add: loopBody_def Let_def addLog_fields markNodeError_fields
          updateNode_fields split: sum.splits option.splits intro!: nav)
  qed
qed

lemma cycle_run:
  "map (\<lambda>e. (l_status e, l_nodeId e))
     (processingLog (handleProcessFlow clock (\<lambda>k d x b. Inr (answer k d x b)) cycleFlow)) =
     [(info, None), (success, Some ''a''), (success, Some ''b''), (error, Some ''a'')]"
  "l_message (last (processingLog
       (handleProcessFlow clock (\<lambda>k d x b. Inr (answer k d x b)) cycleFlow))) =
     ''Cycle detected at node a. Halting.''"
  "invocations (handleProcessFlow clock (\<lambda>k d x b. Inr (answer k d x b)) cycleFlow) =
     [(''A'', ''go'', Some False),
      (''B'', r_text (answer 0 ''A'' ''go'' (Some False)), Some False)]"
  "finalOutput (handleProcessFlow clock (\<lambda>k d x b. Inr (answer k d x b)) cycleFlow) = None"
  "nodeErrors (handleProcessFlow clock (\<lambda>k d x b. Inr (answer k d x b)) cycleFlow) =
     [''a'' \<mapsto> True]"
  by (simp_all add: cycleFlow_def run_defs)

text \<open>
  C5. The set \<open>visitedNodes\<close> starts empty and gains the id of the current node in every
  iteration that goes on. When the id of the current node is already in it, the loop stops
  in that iteration with nothing done but the error entry "Cycle detected at node ...
  Halting." for that node and its failure mark: the node is not processed and the service is
  not called. When the id is not in it, no entry that the iteration appends is a cycle
  entry. On the flow START, A, B, A with a service that answers every call, the run logs the
  start, the outputs of A and of B and then the cycle error at A; the service was called
  once for A and once for B, and no final output is set.
\<close>

theorem C5_cycle_detected:
  "(n_id (currentNode lv) \<in> visitedNodes lv \<longrightarrow>
      processLoop clock service ns es (Suc bound) lv s =
        markNodeError (n_id (currentNode lv))
          (addLog clock (''Cycle detected at node '' @ n_id (currentNode lv) @ ''. Halting.'')
             error (Some (n_id (currentNode lv))) None s))
   \<and> (n_id (currentNode lv) \<notin> visitedNodes lv \<longrightarrow>
        (\<exists>new. processingLog (snd (loopBody clock service ns es lv s)) = processingLog s @ new
           \<and> (\<forall>x\<in>set new. \<not> prefix ''Cycle detected'' (l_message x))))
   \<and> (\<forall>lv' s'. loopBody clock service ns es lv s = (Some lv', s') \<longrightarrow>
         visitedNodes lv' = insert (n_id (currentNode lv)) (visitedNodes lv))
   \<and> map (\<lambda>e. (l_status e, l_nodeId e))
       (processingLog (handleProcessFlow clock (\<lambda>k d x b. Inr (answer k d x b)) cycleFlow)) =
       [(info, None), (success, Some ''a''), (success, Some ''b''), (error, Some ''a'')]
   \<and> l_message (last (processingLog
         (handleProcessFlow clock (\<lambda>k d x b. Inr (answer k d x b)) cycleFlow))) =
       ''Cycle detected at node a. Halting.''
   \<and> invocations (handleProcessFlow clock (\<lambda>k d x b. Inr (answer k d x b)) cycleFlow) =
       [(''A'', ''go'', Some False),
        (''B'', r_text (answer 0 ''A'' ''go'' (Some False)), Some False)]
   \<and> finalOutput (handleProcessFlow clock (\<lambda>k d x b. Inr (answer k d x b)) cycleFlow) = None
   \<and> nodeErrors (handleProcessFlow clock (\<lambda>k d x b. Inr (answer k d x b)) cycleFlow) =
       [''a'' \<mapsto> True]"
proof -
  have "processLoop clock service ns es (Suc bound) lv s =
        markNodeError (n_id (currentNode lv))
          (addLog clock (''Cycle detected at node '' @ n_id (currentNode lv) @ ''. Halting.'')
             error (Some (n_id (currentNode lv))) None s)"
    if "n_id (currentNode lv) \<in> visitedNodes lv"
    using that by (simp add: loopBody_cycle)
  moreover have "\<forall>lv' s'. loopBody clock service ns es lv s = (Some lv', s') \<longrightarrow>
         visitedNodes lv' = insert (n_id (currentNode lv)) (visitedNodes lv)"
    using loopBody_visited by blast
  ultimately show ?thesis
    using loopBody_no_cycle_entry [of lv clock service ns es s] cycle_run [of clock answer]
    by blast
qed

theorem C5_cycle_detected_witness:
  "''a'' \<in> {''s'', ''a'', ''b''}
   \<and> map logContent (processingLog
        (processLoop (\<lambda>k. 0) echoService [] [] (Suc 0)
           \<lparr>currentNode = newNode ''a'' AGENT ''A'' 290 940, currentInput = ''go'',
            visitedNodes = {''s'', ''a'', ''b''}\<rparr> mountState)) =
       [(error, ''Cycle detected at node a. Halting.'', Some ''a'', None)]
   \<and> invocations
        (processLoop (\<lambda>k. 0) echoService [] [] (Suc 0)
           \<lparr>currentNode = newNode ''a'' AGENT ''A'' 290 940, currentInput = ''go'',
            visitedNodes = {''s'', ''a'', ''b''}\<rparr> mountState) = []
   \<and> ''a'' \<notin> {''s''}
   \<and> list_all (\<lambda>x. \<not> prefix ''Cycle detected'' (l_message x))
        (processingLog (snd (loopBody (\<lambda>k. 0) echoService (nodes cycleFlow) (edges cycleFlow)
           \<lparr>currentNode = newNode ''a'' AGENT ''A'' 290 940, currentInput = ''go'',
            visitedNodes = {''s''}\<rparr> mountState)))
   \<and> visitedNodes (the (fst (loopBody (\<lambda>k. 0) echoService (nodes cycleFlow) (edges cycleFlow)
           \<lparr>currentNode = newNode ''a'' AGENT ''A'' 290 940, currentInput = ''go'',
            visitedNodes = {''s''}\<rparr> mountState))) = {''a'', ''s''}"
proof -
  let ?lv1 = "\<lparr>currentNode = newNode ''a'' AGENT ''A'' 290 940, currentInput = ''go'',
            visitedNodes = {''s'', ''a'', ''b''}\<rparr>"
  let ?lv2 = "\<lparr>currentNode = newNode ''a'' AGENT ''A'' 290 940, currentInput = ''go'',
            visitedNodes = {''s''}\<rparr>"
  note t1 = C5_cycle_detected [where lv = ?lv1 and clock = "\<lambda>k. 0" and service = echoService
      and ns = "[]" and es = "[]" and bound = 0 and s = mountState]
  note t2 = C5_cycle_detected [where lv = ?lv2 and clock = "\<lambda>k. 0" and service = echoService
      and ns = "nodes cycleFlow" and es = "edges cycleFlow" and s = mountState]
  have a: "n_id (currentNode ?lv1) \<in> visitedNodes ?lv1" by (simp add: newNode_def)
  have b: "n_id (currentNode ?lv2) \<notin> visitedNodes ?lv2" by (simp add: newNode_def)
  have c: "processingLog mountState = []" by (simp add: mountState_def)
  have "fst (loopBody (\<lambda>k. 0) echoService (nodes cycleFlow) (edges cycleFlow) ?lv2 mountState)
      \<noteq> None"
    by (simp add: cycleFlow_def echoService_def run_defs)
  then obtain lv' s' where d: "loopBody (\<lambda>k. 0) echoService (nodes cycleFlow) (edges cycleFlow)
      ?lv2 mountState = (Some lv', s')"
    by (metis not_None_eq prod.collapse)
  have "visitedNodes lv' = {''a'', ''s''}"
    using t2 d by (simp add: newNode_def)
  moreover have "list_all (\<lambda>x. \<not> prefix ''Cycle detected'' (l_message x))
      (processingLog (snd (loopBody (\<lambda>k. 0) echoService (nodes cycleFlow) (edges cycleFlow)
         ?lv2 mountState)))"
    using t2 b c by (auto simp add: list_all_iff)
  moreover have "processLoop (\<lambda>k. 0) echoService [] [] (Suc 0) ?lv1 mountState =
      markNodeError ''a'' (addLog (\<lambda>k. 0) ''Cycle detected at node a. Halting.'' error
        (Some ''a'') None mountState)"
    using t1 a by (simp add: newNode_def)
  ultimately show ?thesis
    using d by (simp add: addLog_fields markNodeError_fields mountState_def logContent_def)
qed

section \<open>Branch selection of a CONDITIONAL_AGENT node\<close>




lemma find_Some_first:
  "List.find P xs = Some x \<longleftrightarrow> (\<exists>pre post. xs = pre @ x # post \<and> P x \<and> (\<forall>y\<in>set pre. \<not> P y))"
proof (induction xs)
  case Nil
  then show ?case by simp
next
  case (Cons a xs)
  show ?case
  proof (cases "P a")
    case True
    have "(\<exists>pre post. a # xs = pre @ x # post \<and> P x \<and> (\<forall>y\<in>set pre. \<not> P y)) \<longleftrightarrow> a = x"
    proof
      assume "\<exists>pre post. a # xs = pre @ x # post \<and> P x \<and> (\<forall>y\<in>set pre. \<not> P y)"
      then obtain pre post where h: "a # xs = pre @ x # post" "\<forall>y\<in>set pre. \<not> P y" by blast
      with True show "a = x" by (cases pre) auto
    next
      assume "a = x"
      with True have "a # xs = [] @ x # xs \<and> P x \<and> (\<forall>y\<in>set []. \<not> P y)" by simp
      then show "\<exists>pre post. a # xs = pre @ x # post \<and> P x \<and> (\<forall>y\<in>set pre. \<not> P y)" by blast
    qed
    with True show ?thesis by auto
  next
    case False
    have "(\<exists>pre post. a # xs = pre @ x # post \<and> P x \<and> (\<forall>y\<in>set pre. \<not> P y))
       \<longleftrightarrow> (\<exists>pre post. xs = pre @ x # post \<and> P x \<and> (\<forall>y\<in>set pre. \<not> P y))"
    proof
      assume "\<exists>pre post. a # xs = pre @ x # post \<and> P x \<and> (\<forall>y\<in>set pre. \<not> P y)"
      then obtain pre post where h: "a # xs = pre @ x # post" "P x" "\<forall>y\<in>set pre. \<not> P y" by blast
      with False obtain pre' where "pre = a # pre'" by (cases pre) auto
      with h have "xs = pre' @ x # post \<and> P x \<and> (\<forall>y\<in>set pre'. \<not> P y)" by simp
      then show "\<exists>pre post. xs = pre @ x # post \<and> P x \<and> (\<forall>y\<in>set pre. \<not> P y)" by blast
    next
      assume "\<exists>pre post. xs = pre @ x # post \<and> P x \<and> (\<forall>y\<in>set pre. \<not> P y)"
      then obtain pre post where h: "xs = pre @ x # post" "P x" "\<forall>y\<in>set pre. \<not> P y" by blast
      with False have "a # xs = (a # pre) @ x # post \<and> P x \<and> (\<forall>y\<in>set (a # pre). \<not> P y)" by simp
      then show "\<exists>pre post. a # xs = pre @ x # post \<and> P x \<and> (\<forall>y\<in>set pre. \<not> P y)" by blast
    qed
    with False Cons.IH show ?thesis by simp
  qed
qed








section \<open>The outgoing edge of a START or AGENT node\<close>


lemma loopBody_START:
  assumes "n_type (currentNode lv) = START" and "n_id (currentNode lv) \<notin> visitedNodes lv"
  shows "loopBody clock service ns es lv s =
     navigate clock ns (currentNode lv) (currentInput lv)
       (insert (n_id (currentNode lv)) (visitedNodes lv))
       (firstEdgeFrom es (n_id (currentNode lv)))
       (s\<lparr>currentProcessingNodeId := Some (n_id (currentNode lv))\<rparr>)"
  using assms by (simp add: loopBody_def Let_def)







section \<open>The checks before the loop\<close>

text \<open>A question is blank for the engine exactly when all its characters are white space.\<close>

lemma trim_empty_iff: "trim s = [] \<longleftrightarrow> (\<forall>c\<in>set s. isWhiteSpace c)"
proof -
  have inner: "dropWhile isWhiteSpace (rev (dropWhile isWhiteSpace s)) = []
      \<longleftrightarrow> dropWhile isWhiteSpace s = []"
  proof (cases "dropWhile isWhiteSpace s = []")
    case True
    then show ?thesis by (simp only: rev.simps dropWhile.simps)
  next
    case False
    then have "\<not> isWhiteSpace (hd (dropWhile isWhiteSpace s))"
      by (rule hd_dropWhile)
    moreover have "hd (dropWhile isWhiteSpace s) \<in> set (rev (dropWhile isWhiteSpace s))"
      using False by simp
    ultimately have "dropWhile isWhiteSpace (rev (dropWhile isWhiteSpace s)) \<noteq> []"
      by (metis dropWhile_eq_Nil_conv)
    with False show ?thesis by blast
  qed
  have outer: "trim s = [] \<longleftrightarrow> dropWhile isWhiteSpace (rev (dropWhile isWhiteSpace s)) = []"
    by (simp only: trim_def rev_is_Nil_conv)
  have "dropWhile isWhiteSpace s = [] \<longleftrightarrow> (\<forall>c\<in>set s. isWhiteSpace c)"
    by (rule dropWhile_eq_Nil_conv)
  with inner outer show ?thesis by blast
qed

lemma find_None_START:
  "(\<forall>n\<in>set ns. n_type n \<noteq> START) \<Longrightarrow> List.find (\<lambda>n. n_type n = START) ns = None"
  by (simp add: find_None_iff)

lemma find_first_START:
  "ns = pre @ startNode # post \<Longrightarrow> n_type startNode = START \<Longrightarrow> (\<forall>n\<in>set pre. n_type n \<noteq> START)
    \<Longrightarrow> List.find (\<lambda>n. n_type n = START) ns = Some startNode"
  using find_Some_first [of "\<lambda>n. n_type n = START" ns startNode] by blast

lemma handleProcessFlow_blank:
  "trim (initialQuestion s) = [] \<Longrightarrow>
      handleProcessFlow clock service s =
        addLog clock ''Initial question cannot be empty.'' error None None s"
  by (simp add: handleProcessFlow_def)

lemma handleProcessFlow_noStart:
  assumes "trim (initialQuestion s) \<noteq> []" and "\<forall>n\<in>set (nodes s). n_type n \<noteq> START"
  shows "handleProcessFlow clock service s =
     (addLog clock ''START node not found.'' error None None
        (addLog clock (''Starting flow with question: '' @ [CHR 0x22] @ initialQuestion s @ [CHR 0x22]) info None None (resetRun s)))
     \<lparr>isProcessing := False\<rparr>"
  using assms by (simp add: handleProcessFlow_def find_None_START Let_def)

lemma handleProcessFlow_start:
  assumes "trim (initialQuestion s) \<noteq> []" and "nodes s = pre @ startNode # post"
    and "n_type startNode = START" and "\<forall>n\<in>set pre. n_type n \<noteq> START"
  shows "handleProcessFlow clock service s =
        (processLoop clock service (nodes s) (edges s) (length (nodes s) + 10)
           \<lparr>currentNode = startNode, currentInput = initialQuestion s, visitedNodes = {}\<rparr>
           (addLog clock (''Starting flow with question: '' @ [CHR 0x22] @ initialQuestion s @ [CHR 0x22]) info None None (resetRun s)))
        \<lparr>isProcessing := False, currentProcessingNodeId := None\<rparr>"
  using assms(1) find_first_START [OF assms(2) assms(3) assms(4)]
  by (simp add: handleProcessFlow_def Let_def)

lemma resetRun_fields:
  "edges (resetRun s) = edges s"
  "initialQuestion (resetRun s) = initialQuestion s"
  "processingLog (resetRun s) = []"
  "finalOutput (resetRun s) = None"
  "currentProcessingNodeId (resetRun s) = None"
  "nodeErrors (resetRun s) = Map.empty"
  "invocations (resetRun s) = invocations s"
  "clockReads (resetRun s) = clockReads s"
  "nodes (resetRun s) = map (\<lambda>n. n\<lparr>n_output := None, n_lastProcessedInput := None,
                            n_groundingMetadata := Some []\<rparr>) (nodes s)"
  by (simp_all add: resetRun_def)

text \<open>
  C2, as the code has it. A blank question fails fast: the run appends the error entry
  "Initial question cannot be empty." and does nothing else, whatever the graph. With a
  question that is not blank and a graph without a START node the run fails fast: after
  the start entry it logs the error "START node not found."; no node becomes the current
  one, the service is not called and no final output is set. With one START node or
  several, the run does not fail for that reason: the loop starts at the first START node
  of the node list.
\<close>

theorem C2_fail_fast:
  "(trim (initialQuestion s) = [] \<longrightarrow>
      handleProcessFlow clock service s =
        addLog clock ''Initial question cannot be empty.'' error None None s)
   \<and> (trim (initialQuestion s) \<noteq> [] \<and> (\<forall>n\<in>set (nodes s). n_type n \<noteq> START) \<longrightarrow>
        map logContent (processingLog (handleProcessFlow clock service s)) =
          [(info, ''Starting flow with question: '' @ [CHR 0x22] @ initialQuestion s
              @ [CHR 0x22], None, None),
           (error, ''START node not found.'', None, None)]
        \<and> invocations (handleProcessFlow clock service s) = invocations s
        \<and> currentProcessingNodeId (handleProcessFlow clock service s) = None
        \<and> finalOutput (handleProcessFlow clock service s) = None
        \<and> nodeErrors (handleProcessFlow clock service s) = Map.empty
        \<and> isProcessing (handleProcessFlow clock service s) = False)
   \<and> (trim (initialQuestion s) \<noteq> [] \<and> nodes s = pre @ startNode # post
        \<and> n_type startNode = START \<and> (\<forall>n\<in>set pre. n_type n \<noteq> START) \<longrightarrow>
        handleProcessFlow clock service s =
          (processLoop clock service (nodes s) (edges s) (length (nodes s) + 10)
             \<lparr>currentNode = startNode, currentInput = initialQuestion s, visitedNodes = {}\<rparr>
             (addLog clock
                (''Starting flow with question: '' @ [CHR 0x22] @ initialQuestion s
                   @ [CHR 0x22])
                info None None (resetRun s)))
          \<lparr>isProcessing := False, currentProcessingNodeId := None\<rparr>)"
proof (intro conjI impI)
  assume "trim (initialQuestion s) = []"
  then show "handleProcessFlow clock service s =
        addLog clock ''Initial question cannot be empty.'' error None None s"
    by (rule handleProcessFlow_blank)
next
  assume h: "trim (initialQuestion s) \<noteq> [] \<and> (\<forall>n\<in>set (nodes s). n_type n \<noteq> START)"
  note run = handleProcessFlow_noStart [of s clock service, OF conjunct1 [OF h] conjunct2 [OF h]]
  show "map logContent (processingLog (handleProcessFlow clock service s)) =
          [(info, ''Starting flow with question: '' @ [CHR 0x22] @ initialQuestion s
              @ [CHR 0x22], None, None),
           (error, ''START node not found.'', None, None)]"
    by (simp add: run addLog_fields resetRun_fields logContent_def)
  show "invocations (handleProcessFlow clock service s) = invocations s"
    by (simp add: run addLog_fields resetRun_fields)
  show "currentProcessingNodeId (handleProcessFlow clock service s) = None"
    by (simp add: run addLog_fields resetRun_fields)
  show "finalOutput (handleProcessFlow clock service s) = None"
    by (simp add: run addLog_fields resetRun_fields)
  show "nodeErrors (handleProcessFlow clock service s) = Map.empty"
    by (simp add: run addLog_fields resetRun_fields)
  show "isProcessing (handleProcessFlow clock service s) = False"
    by (simp add: run)
next
  assume "trim (initialQuestion s) \<noteq> [] \<and> nodes s = pre @ startNode # post
        \<and> n_type startNode = START \<and> (\<forall>n\<in>set pre. n_type n \<noteq> START)"
  then show "handleProcessFlow clock service s =
          (processLoop clock service (nodes s) (edges s) (length (nodes s) + 10)
             \<lparr>currentNode = startNode, currentInput = initialQuestion s, visitedNodes = {}\<rparr>
             (addLog clock
                (''Starting flow with question: '' @ [CHR 0x22] @ initialQuestion s
                   @ [CHR 0x22])
                info None None (resetRun s)))
          \<lparr>isProcessing := False, currentProcessingNodeId := None\<rparr>"
    using handleProcessFlow_start [of s pre startNode post clock service] by blast
qed

lemma twoStart_run:
  "finalOutput (handleProcessFlow clock echoService twoStartFlow) = Some ''hi''"
  "map (\<lambda>e. (l_status e, l_nodeId e))
     (processingLog (handleProcessFlow clock echoService twoStartFlow)) =
     [(info, None), (success, Some ''e'')]"
  "nodeErrors (handleProcessFlow clock echoService twoStartFlow) = Map.empty"
  by (simp_all add: twoStartFlow_def echoService_def run_defs)

text \<open>
  The claim as the specification states it fails on the flow with two START nodes: the run
  is not rejected, it starts at the first START node, reaches the END node and completes
  with the final output set and no error entry.
\<close>

theorem C2_counterexample:
  "length (filter (\<lambda>n. n_type n = START) (nodes twoStartFlow)) = 2
   \<and> finalOutput (handleProcessFlow (\<lambda>k. 0) echoService twoStartFlow) = Some ''hi''
   \<and> map (\<lambda>e. (l_status e, l_nodeId e))
        (processingLog (handleProcessFlow (\<lambda>k. 0) echoService twoStartFlow)) =
       [(info, None), (success, Some ''e'')]
   \<and> nodeErrors (handleProcessFlow (\<lambda>k. 0) echoService twoStartFlow) = Map.empty"
  by (simp add: twoStart_run) (simp add: twoStartFlow_def mountState_def newNode_def)

theorem C2_fail_fast_witness:
  "handleProcessFlow (\<lambda>k. 0) echoService (happyPathFlow\<lparr>initialQuestion := ''  ''\<rparr>) =
     addLog (\<lambda>k. 0) ''Initial question cannot be empty.'' error None None
       (happyPathFlow\<lparr>initialQuestion := ''  ''\<rparr>)
   \<and> map logContent (processingLog (handleProcessFlow (\<lambda>k. 0) echoService
        (mountState\<lparr>nodes := [newNode ''e'' END ''Workflow End'' 2750 940],
                    initialQuestion := ''hi''\<rparr>))) =
       [(info, ''Starting flow with question: '' @ [CHR 0x22] @ ''hi'' @ [CHR 0x22], None, None),
        (error, ''START node not found.'', None, None)]
   \<and> invocations (handleProcessFlow (\<lambda>k. 0) echoService
        (mountState\<lparr>nodes := [newNode ''e'' END ''Workflow End'' 2750 940],
                    initialQuestion := ''hi''\<rparr>)) = []
   \<and> finalOutput (handleProcessFlow (\<lambda>k. 0) echoService twoStartFlow) = Some ''hi''"
proof -
  let ?blank = "happyPathFlow\<lparr>initialQuestion := ''  ''\<rparr>"
  let ?noStart = "mountState\<lparr>nodes := [newNode ''e'' END ''Workflow End'' 2750 940],
                    initialQuestion := ''hi''\<rparr>"
  let ?s1 = "newNode ''s1'' START ''Workflow Start'' 50 940"
  have b: "trim (initialQuestion ?blank) = []"
    by (simp add: trim_def isWhiteSpace_def)
  have n: "trim (initialQuestion ?noStart) \<noteq> [] \<and> (\<forall>n\<in>set (nodes ?noStart). n_type n \<noteq> START)"
    by (simp add: trim_def isWhiteSpace_def mountState_def newNode_def)
  have t: "trim (initialQuestion twoStartFlow) \<noteq> []
      \<and> nodes twoStartFlow = [] @ ?s1 # [newNode ''s2'' START ''Second Start'' 50 1080,
                 newNode ''e'' END ''Workflow End'' 2750 940]
      \<and> n_type ?s1 = START \<and> (\<forall>n\<in>set []. n_type n \<noteq> START)"
    by (simp add: twoStartFlow_def trim_def isWhiteSpace_def mountState_def newNode_def)
  note c1 = C2_fail_fast [where s = ?blank and clock = "\<lambda>k. 0" and service = echoService,
      THEN conjunct1, rule_format, OF b]
  note c2 = C2_fail_fast [where s = ?noStart and clock = "\<lambda>k. 0" and service = echoService,
      THEN conjunct2, THEN conjunct1, rule_format, OF n]
  note c3 = C2_fail_fast [where s = twoStartFlow and clock = "\<lambda>k. 0" and service = echoService
      and pre = "[]" and startNode = ?s1, THEN conjunct2, THEN conjunct2, rule_format, OF t]
  have "finalOutput (handleProcessFlow (\<lambda>k. 0) echoService twoStartFlow) = Some ''hi''"
    unfolding c3 by (simp add: twoStartFlow_def echoService_def run_defs)
  with c1 c2 show ?thesis by (simp add: mountState_def)
qed

section \<open>What a run leaves unchanged\<close>




text \<open>The two ways an iteration ends, for proofs by induction on the bound.\<close>

lemma processLoop_break:
  "fst (loopBody clock service ns es lv s) = None \<Longrightarrow>
     processLoop clock service ns es (Suc bound) lv s = snd (loopBody clock service ns es lv s)"
  by (simp add: case_prod_beta)

lemma processLoop_continue:
  "fst (loopBody clock service ns es lv s) = Some lv' \<Longrightarrow>
     processLoop clock service ns es (Suc bound) lv s =
       processLoop clock service ns es bound lv' (snd (loopBody clock service ns es lv s))"
  by (simp add: case_prod_beta)







section \<open>Independence of the clock\<close>


















section \<open>The final output\<close>

lemma find_Some_mem: "List.find P xs = Some x \<Longrightarrow> x \<in> set xs"
  using find_Some_first [of P xs x] by auto

lemma navigate_outcome:
  "case navigate clock ns cn input visited e s of
     (Some lv', s') \<Rightarrow> s' = s \<and> currentNode lv' \<in> set ns \<and> visitedNodes lv' = visited
   | (None, s') \<Rightarrow>
       processingLog s' \<noteq> [] \<and> l_status (last (processingLog s')) = error
       \<and> finalOutput s' = finalOutput s"
  by (auto simp add: navigate_def addLog_fields markNodeError_fields find_Some_mem
      split: option.splits)

lemma navigate_continue:
  assumes "navigate clock ns cn input visited e s = (Some lv', s')"
  shows "s' = s \<and> currentNode lv' \<in> set ns \<and> visitedNodes lv' = visited"
  using navigate_outcome [where clock = clock and ns = ns and cn = cn and input = input
      and visited = visited and e = e and s = s] assms by simp

lemma navigate_break:
  assumes "navigate clock ns cn input visited e s = (None, s')"
  shows "processingLog s' \<noteq> [] \<and> l_status (last (processingLog s')) = error
    \<and> finalOutput s' = finalOutput s"
  using navigate_outcome [where clock = clock and ns = ns and cn = cn and input = input
      and visited = visited and e = e and s = s] assms by simp

lemma loopBody_continue:
  assumes "loopBody clock service ns es lv s = (Some lv', s')"
  shows "finalOutput s' = finalOutput s" and "currentNode lv' \<in> set ns"
proof -
  have "finalOutput s' = finalOutput s \<and> currentNode lv' \<in> set ns"
  proof (cases "n_type (currentNode lv)")
    case START
    with assms show ?thesis
      by (auto simp add: loopBody_def Let_def split: if_splits dest!: navigate_continue)
  next
    case AGENT
    with assms show ?thesis
      by (auto simp add: loopBody_def Let_def addLog_fields updateNode_fields
          split: if_splits sum.splits dest!: navigate_continue)
  next
    case END
    with assms show ?thesis
      by (auto simp add: loopBody_def Let_def split: if_splits)
  next
    case CONDITIONAL_AGENT
    with assms show ?thesis
      by (auto simp add: loopBody_def Let_def addLog_fields updateNode_fields
          split: if_splits sum.splits option.splits dest!: navigate_continue)
  qed
  then show "finalOutput s' = finalOutput s" and "currentNode lv' \<in> set ns" by simp_all
qed

lemma loopBody_break:
  assumes "loopBody clock service ns es lv s = (None, s')"
  shows "(processingLog s' \<noteq> [] \<and> l_status (last (processingLog s')) = error
            \<and> finalOutput s' = finalOutput s)
         \<or> endedAtEND lv s'"
proof (cases "n_id (currentNode lv) \<in> visitedNodes lv")
  case True
  with assms show ?thesis
    by (auto simp add: loopBody_cycle addLog_fields markNodeError_fields)
next
  case False
  show ?thesis
  proof (cases "n_type (currentNode lv)")
    case START
    with assms False show ?thesis
      by (auto simp add: loopBody_START dest: navigate_break)
  next
    case END
    with assms False show ?thesis
      by (auto simp add: loopBody_END endedAtEND_def addLog_fields updateNode_fields
          logContent_def)
  next
    case AGENT
    with assms False show ?thesis
      by (auto simp add: loopBody_def Let_def addLog_fields markNodeError_fields
          updateNode_fields split: sum.splits dest!: navigate_break)
  next
    case CONDITIONAL_AGENT
    with assms False show ?thesis
      by (auto simp add: loopBody_def Let_def addLog_fields markNodeError_fields
          updateNode_fields split: sum.splits option.splits dest!: navigate_break)
  qed
qed

lemma processLoop_finalOutput:
  assumes "currentNode lv \<in> set ns"
  shows "finalOutput (processLoop clock service ns es bound lv s) = finalOutput s
     \<or> (\<exists>lvE. currentNode lvE \<in> set ns
           \<and> endedAtEND lvE (processLoop clock service ns es bound lv s))"
  using assms
proof (induction bound arbitrary: lv s)
  case 0
  then show ?case by simp
next
  case (Suc bound)
  show ?case
  proof (cases "fst (loopBody clock service ns es lv s)")
    case None
    then have b: "loopBody clock service ns es lv s =
        (None, snd (loopBody clock service ns es lv s))"
      by (metis prod.collapse)
    show ?thesis
      using loopBody_break [OF b] Suc.prems by (auto simp only: processLoop_break [OF None])
  next
    case (Some lv')
    then have c: "loopBody clock service ns es lv s =
        (Some lv', snd (loopBody clock service ns es lv s))"
      by (metis prod.collapse)
    show ?thesis
      using Suc.IH [OF loopBody_continue(2) [OF c], of "snd (loopBody clock service ns es lv s)"]
        loopBody_continue(1) [OF c]
      by (simp only: processLoop_continue [OF Some])
  qed
qed

lemma endedAtEND_after:
  "endedAtEND lv s \<Longrightarrow> endedAtEND lv (s\<lparr>isProcessing := False, currentProcessingNodeId := None\<rparr>)"
  by (simp add: endedAtEND_def)

lemma handleProcessFlow_finalOutput:
  assumes "trim (initialQuestion s) \<noteq> []"
  shows "finalOutput (handleProcessFlow clock service s) = None
     \<or> (\<exists>lv. currentNode lv \<in> set (nodes s) \<and> endedAtEND lv (handleProcessFlow clock service s))"
proof (cases "List.find (\<lambda>n. n_type n = START) (nodes s)")
  case None
  with assms show ?thesis
    by (simp add: handleProcessFlow_def Let_def addLog_fields resetRun_fields)
next
  case (Some startNode)
  let ?lv = "\<lparr>currentNode = startNode, currentInput = initialQuestion s, visitedNodes = {}\<rparr>"
  let ?s1 = "addLog clock
      (''Starting flow with question: '' @ [CHR 0x22] @ initialQuestion s @ [CHR 0x22])
      info None None (resetRun s)"
  let ?r = "processLoop clock service (nodes s) (edges s) (length (nodes s) + 10) ?lv ?s1"
  have run: "handleProcessFlow clock service s =
      ?r\<lparr>isProcessing := False, currentProcessingNodeId := None\<rparr>"
    using assms Some by (simp add: handleProcessFlow_def Let_def)
  have "currentNode ?lv \<in> set (nodes s)"
    using find_Some_mem [OF Some] by simp
  from processLoop_finalOutput [OF this, of clock service "edges s" "length (nodes s) + 10" ?s1]
  have "finalOutput ?r = None \<or> (\<exists>lvE. currentNode lvE \<in> set (nodes s) \<and> endedAtEND lvE ?r)"
    by (simp add: addLog_fields resetRun_fields)
  then show ?thesis
    unfolding run using endedAtEND_after by auto
qed

text \<open>
  C10. A run with a blank question leaves the final output as it was. A run with a question
  that is not blank clears the final output, and at its end the final output is either
  still unset or the payload that the loop carried into an END node of the graph, with the
  success entry of that node as the last entry of the log; in particular a run whose last
  log entry is an error entry (cycle, dead end, no matching branch, rejected invocation,
  missing target, missing START node) has no final output. Within the loop, an iteration
  that goes on never touches the final output, and an iteration that stops at a node other
  than an END node does not either: the only assignment is the one of the END iteration,
  which is the last iteration.
\<close>

theorem C10_final_output:
  "(trim (initialQuestion s) = [] \<longrightarrow>
      finalOutput (handleProcessFlow clock service s) = finalOutput s)
   \<and> (trim (initialQuestion s) \<noteq> [] \<longrightarrow>
        finalOutput (handleProcessFlow clock service s) = None
        \<or> (\<exists>lv. currentNode lv \<in> set (nodes s)
              \<and> endedAtEND lv (handleProcessFlow clock service s)))
   \<and> (trim (initialQuestion s) \<noteq> []
        \<and> l_status (last (processingLog (handleProcessFlow clock service s))) = error \<longrightarrow>
        finalOutput (handleProcessFlow clock service s) = None)
   \<and> (\<forall>lv' s'. loopBody clock service ns es lv s0 = (Some lv', s') \<longrightarrow>
         finalOutput s' = finalOutput s0)
   \<and> (\<forall>s'. loopBody clock service ns es lv s0 = (None, s') \<and> n_type (currentNode lv) \<noteq> END \<longrightarrow>
         finalOutput s' = finalOutput s0)"
proof (intro conjI impI allI)
  assume "trim (initialQuestion s) = []"
  then show "finalOutput (handleProcessFlow clock service s) = finalOutput s"
    by (simp add: handleProcessFlow_blank addLog_fields)
next
  assume "trim (initialQuestion s) \<noteq> []"
  then show "finalOutput (handleProcessFlow clock service s) = None
        \<or> (\<exists>lv. currentNode lv \<in> set (nodes s)
              \<and> endedAtEND lv (handleProcessFlow clock service s))"
    by (rule handleProcessFlow_finalOutput)
next
  assume h: "trim (initialQuestion s) \<noteq> []
        \<and> l_status (last (processingLog (handleProcessFlow clock service s))) = error"
  have "\<not> endedAtEND lv (handleProcessFlow clock service s)" for lv
    using h by (auto simp add: endedAtEND_def logContent_def)
  with handleProcessFlow_finalOutput [of s clock service] h
  show "finalOutput (handleProcessFlow clock service s) = None"
    by blast
next
  fix lv' s'
  assume "loopBody clock service ns es lv s0 = (Some lv', s')"
  then show "finalOutput s' = finalOutput s0"
    by (rule loopBody_continue(1))
next
  fix s'
  assume h: "loopBody clock service ns es lv s0 = (None, s') \<and> n_type (currentNode lv) \<noteq> END"
  then have "\<not> endedAtEND lv s'" by (simp add: endedAtEND_def)
  with loopBody_break [of clock service ns es lv s0 s'] h
  show "finalOutput s' = finalOutput s0" by blast
qed

theorem C10_final_output_witness:
  "finalOutput (handleProcessFlow (\<lambda>k. 0) echoService
       (happyPathFlow\<lparr>initialQuestion := ''  '', finalOutput := Some ''old''\<rparr>)) = Some ''old''
   \<and> l_status (last (processingLog (handleProcessFlow (\<lambda>k. 0) echoService cycleFlow))) = error
   \<and> finalOutput (handleProcessFlow (\<lambda>k. 0) echoService cycleFlow) = None
   \<and> finalOutput (handleProcessFlow (\<lambda>k. 0) echoService happyPathFlow) = Some ''hello''
   \<and> (\<exists>lv. currentNode lv \<in> set (nodes happyPathFlow)
         \<and> endedAtEND lv (handleProcessFlow (\<lambda>k. 0) echoService happyPathFlow))"
proof -
  let ?blank = "happyPathFlow\<lparr>initialQuestion := ''  '', finalOutput := Some ''old''\<rparr>"
  have b: "trim (initialQuestion ?blank) = []"
    by (simp add: trim_def isWhiteSpace_def)
  have c: "trim (initialQuestion cycleFlow) \<noteq> []"
    "l_status (last (processingLog (handleProcessFlow (\<lambda>k. 0) echoService cycleFlow))) = error"
    by (simp_all add: cycleFlow_def echoService_def run_defs)
  have h: "trim (initialQuestion happyPathFlow) \<noteq> []"
    "finalOutput (handleProcessFlow (\<lambda>k. 0) echoService happyPathFlow) = Some ''hello''"
    by (simp_all add: happyPathFlow_def echoService_def run_defs)
  note t1 = C10_final_output [where s = ?blank and clock = "\<lambda>k. 0" and service = echoService,
      THEN conjunct1, rule_format, OF b]
  note t2 = C10_final_output [where s = cycleFlow and clock = "\<lambda>k. 0" and service = echoService,
      THEN conjunct2, THEN conjunct2, THEN conjunct1, rule_format, OF conjI [OF c]]
  note t3 = C10_final_output [where s = happyPathFlow and clock = "\<lambda>k. 0"
      and service = echoService, THEN conjunct2, THEN conjunct1, rule_format, OF h(1)]
  from t3 h(2) have "\<exists>lv. currentNode lv \<in> set (nodes happyPathFlow)
         \<and> endedAtEND lv (handleProcessFlow (\<lambda>k. 0) echoService happyPathFlow)"
    by simp
  with t1 t2 c(2) h(2) show ?thesis by simp
qed

section \<open>How the loop is left\<close>

text \<open>
  Every iteration that goes on adds to \<open>visitedNodes\<close> an id of the node list that was not
  in it, and the current node is always a node of the list. So a loop with more iterations
  to go than there are unvisited ids is left by a break.
\<close>

lemma leftByBreak_bound:
  assumes "currentNode lv \<in> set ns"
    and "card (n_id ` set ns - visitedNodes lv) < bound"
  shows "leftByBreak clock service ns es bound lv s"
  using assms
proof (induction bound arbitrary: lv s)
  case 0
  then show ?case by simp
next
  case (Suc bound lv s)
  show ?case
  proof (cases "fst (loopBody clock service ns es lv s)")
    case None
    then show ?thesis by (simp add: case_prod_beta)
  next
    case (Some lv')
    then have c: "loopBody clock service ns es lv s =
        (Some lv', snd (loopBody clock service ns es lv s))"
      by (metis prod.collapse)
    note v = loopBody_visited [OF c]
    have "n_id (currentNode lv) \<in> n_id ` set ns - visitedNodes lv"
      using Suc.prems(1) v by simp
    then have "card (n_id ` set ns - visitedNodes lv') < card (n_id ` set ns - visitedNodes lv)"
      using v by (intro psubset_card_mono) auto
    with Suc.prems(2) have "card (n_id ` set ns - visitedNodes lv') < bound"
      by simp
    from Suc.IH [OF loopBody_continue(2) [OF c] this]
    show ?thesis using Some by (simp add: case_prod_beta)
  qed
qed

lemma leftByBreak_terminal:
  assumes "leftByBreak clock service ns es bound lv s"
  shows "(processingLog (processLoop clock service ns es bound lv s) \<noteq> []
          \<and> l_status (last (processingLog (processLoop clock service ns es bound lv s))) = error)
     \<or> (\<exists>lvE. endedAtEND lvE (processLoop clock service ns es bound lv s))"
  using assms
proof (induction bound arbitrary: lv s)
  case 0
  then show ?case by simp
next
  case (Suc bound)
  show ?case
  proof (cases "fst (loopBody clock service ns es lv s)")
    case None
    then have b: "loopBody clock service ns es lv s =
        (None, snd (loopBody clock service ns es lv s))"
      by (metis prod.collapse)
    show ?thesis
      using loopBody_break [OF b] by (auto simp only: processLoop_break [OF None])
  next
    case (Some lv')
    with Suc.prems have "leftByBreak clock service ns es bound lv'
        (snd (loopBody clock service ns es lv s))"
      by (simp add: case_prod_beta)
    from Suc.IH [OF this] show ?thesis
      by (simp only: processLoop_continue [OF Some])
  qed
qed

text \<open>
  The loop of \<^verbatim>\<open>handleProcessFlow\<close> starts with no id visited and \<open>length nodes + 10\<close>
  iterations to go: it is always left by a break, and the bound never runs out. Hence
  every run with a question that is not blank ends with an error entry or with the success
  entry of an END node as the last entry of its log.
\<close>

lemma run_left_by_break:
  assumes "List.find (\<lambda>n. n_type n = START) (nodes s) = Some startNode"
  shows "leftByBreak clock service (nodes s) (edges s) (length (nodes s) + 10)
     \<lparr>currentNode = startNode, currentInput = initialQuestion s, visitedNodes = {}\<rparr> s1"
proof -
  have "card (n_id ` set (nodes s)) \<le> length (nodes s)"
    by (metis card_image_le card_length le_trans List.finite_set)
  then show ?thesis
    using find_Some_mem [OF assms] by (intro leftByBreak_bound) simp_all
qed

lemma run_ends_with_terminal_entry:
  assumes "trim (initialQuestion s) \<noteq> []"
  shows "(processingLog (handleProcessFlow clock service s) \<noteq> []
          \<and> l_status (last (processingLog (handleProcessFlow clock service s))) = error)
     \<or> (\<exists>lv. endedAtEND lv (handleProcessFlow clock service s))"
proof (cases "List.find (\<lambda>n. n_type n = START) (nodes s)")
  case None
  with assms show ?thesis
    by (simp add: handleProcessFlow_def Let_def addLog_fields)
next
  case (Some startNode)
  let ?lv = "\<lparr>currentNode = startNode, currentInput = initialQuestion s, visitedNodes = {}\<rparr>"
  let ?s1 = "addLog clock
      (''Starting flow with question: '' @ [CHR 0x22] @ initialQuestion s @ [CHR 0x22])
      info None None (resetRun s)"
  let ?r = "processLoop clock service (nodes s) (edges s) (length (nodes s) + 10) ?lv ?s1"
  have run: "handleProcessFlow clock service s =
      ?r\<lparr>isProcessing := False, currentProcessingNodeId := None\<rparr>"
    using assms Some by (simp add: handleProcessFlow_def Let_def)
  from leftByBreak_terminal [OF run_left_by_break [OF Some, of clock service ?s1]]
  have "(processingLog ?r \<noteq> [] \<and> l_status (last (processingLog ?r)) = error)
     \<or> (\<exists>lvE. endedAtEND lvE ?r)" .
  then show ?thesis
    unfolding run using endedAtEND_after by auto
qed

section \<open>The editor never creates a second outgoing edge\<close>

lemma find_distinct_id:
  assumes "distinct (map n_id ns)" and "n \<in> set ns"
  shows "List.find (\<lambda>m. n_id m = n_id n) ns = Some n"
  using assms
proof (induction ns)
  case Nil
  then show ?case by simp
next
  case (Cons a ns)
  then show ?case by (auto simp add: image_iff)
qed

lemma find_None_filter: "List.find P xs = None \<Longrightarrow> filter P xs = []"
  by (simp add: find_None_iff filter_empty_conv)

lemma handleNodeClick_nodes: "nodes (handleNodeClick clock uuid nodeId s) = nodes s"
  by (simp add: handleNodeClick_def addLog_fields split: option.splits prod.splits)

lemma handleNodeClick_edges:
  "edges (handleNodeClick clock uuid nodeId s) = edges s
   \<or> (\<exists>src sourceNode. connectingFromNodeId s = Some src
         \<and> List.find (\<lambda>n. n_id n = src) (nodes s) = Some sourceNode
         \<and> edges (handleNodeClick clock uuid nodeId s) =
             edges s @ [\<lparr>e_id = uuid, e_sourceId = src, e_targetId = nodeId,
                         e_conditionKeyword = Some []\<rparr>]
         \<and> \<not> ((n_type sourceNode = START \<or> n_type sourceNode = AGENT)
                \<and> List.find (\<lambda>edge. e_sourceId edge = src) (edges s) \<noteq> None))"
  by (simp add: handleNodeClick_def addLog_fields split: option.splits prod.splits)

text \<open>
  With node ids that are pairwise different, as the editor creates them, a click never
  gives a START or AGENT node a second outgoing edge. The engine itself does not check
  this: on a graph built otherwise it follows the first edge.
\<close>

lemma handleNodeClick_singleOutgoing:
  assumes "singleOutgoing s" and "distinct (map n_id (nodes s))"
  shows "singleOutgoing (handleNodeClick clock uuid nodeId s)"
proof -
  let ?s' = "handleNodeClick clock uuid nodeId s"
  from handleNodeClick_edges [of clock uuid nodeId s]
  show ?thesis
  proof
    assume "edges ?s' = edges s"
    with assms(1) show ?thesis by (simp add: singleOutgoing_def handleNodeClick_nodes)
  next
    assume "\<exists>src sourceNode. connectingFromNodeId s = Some src
         \<and> List.find (\<lambda>n. n_id n = src) (nodes s) = Some sourceNode
         \<and> edges ?s' =
             edges s @ [\<lparr>e_id = uuid, e_sourceId = src, e_targetId = nodeId,
                         e_conditionKeyword = Some []\<rparr>]
         \<and> \<not> ((n_type sourceNode = START \<or> n_type sourceNode = AGENT)
                \<and> List.find (\<lambda>edge. e_sourceId edge = src) (edges s) \<noteq> None)"
    then obtain src sourceNode where
      f: "List.find (\<lambda>n. n_id n = src) (nodes s) = Some sourceNode"
      and e: "edges ?s' = edges s @ [\<lparr>e_id = uuid, e_sourceId = src, e_targetId = nodeId,
                         e_conditionKeyword = Some []\<rparr>]"
      and g: "\<not> ((n_type sourceNode = START \<or> n_type sourceNode = AGENT)
                \<and> List.find (\<lambda>edge. e_sourceId edge = src) (edges s) \<noteq> None)"
      by blast
    show ?thesis
      unfolding singleOutgoing_def handleNodeClick_nodes
    proof (intro ballI impI)
      fix n
      assume n: "n \<in> set (nodes s)" and t: "n_type n = START \<or> n_type n = AGENT"
      from assms(1) n t have old:
        "length (filter (\<lambda>e. e_sourceId e = n_id n) (edges s)) \<le> 1"
        unfolding singleOutgoing_def by blast
      show "length (filter (\<lambda>e. e_sourceId e = n_id n) (edges ?s')) \<le> 1"
      proof (cases "n_id n = src")
        case False
        with old show ?thesis by (simp add: e)
      next
        case True
        with find_distinct_id [OF assms(2) n] f have "sourceNode = n" by simp
        with g t have "List.find (\<lambda>edge. e_sourceId edge = src) (edges s) = None" by blast
        then have "filter (\<lambda>e. e_sourceId e = src) (edges s) = []"
          by (rule find_None_filter)
        with True show ?thesis by (simp add: e)
      qed
    qed
  qed
qed

end
